theory Spec2Isabelle
  imports Complex_Main "HOL-Library.Word"
begin

section \<open>The box game of \<^verbatim>\<open>asaphus.cpp\<close>\<close>

text \<open>
  The program plays a two-player game over four boxes. Each box carries a running
  weight and a deque of absorbed token weights; a player selects the lightest box,
  lets it absorb the next input and adds the returned score to their own total.

  Numbers. The source computes in \<^verbatim>\<open>double\<close>. Every double below is a finite
  number (the inputs are \<^verbatim>\<open>uint32_t\<close> values, so neither NaN nor an infinity
  arises), and the model takes it as the rational number it denotes: \<open>+\<close>, \<open>*\<close>, \<open>/\<close>
  and \<^verbatim>\<open>std::pow(_, 2)\<close> are the exact operations, comparisons are the
  comparisons of the values. Rounding is therefore not part of the model; the
  initial weights \<^verbatim>\<open>0.1\<close>, \<^verbatim>\<open>0.2\<close>, \<^verbatim>\<open>0.3\<close> are the decimal fractions written in
  the source. The inputs are 32-bit words, converted as \<^verbatim>\<open>static_cast<double>\<close>
  does (exactly, every 32-bit value is representable).

  Mutation of \<^verbatim>\<open>this\<close>, of the vector of boxes and of the player is explicit
  state passing: a member function takes the object and returns the new one
  beside its result.
\<close>

type_synonym double = rat
type_synonym uint32 = "32 word"

definition double_of_uint32 :: "uint32 \<Rightarrow> double" where
  "double_of_uint32 x = of_nat (unat x)"

subsection \<open>Box\<close>

text \<open>
  \<^verbatim>\<open>class Box\<close> has the two data members \<^verbatim>\<open>weight_\<close> and \<^verbatim>\<open>absorbed_weights_\<close>
  (a \<^verbatim>\<open>std::deque<double>\<close>, here a list whose head is the front). The trailing
  underscore of the member names is dropped, and the parameter \<^verbatim>\<open>weight\<close> of the
  two scoring functions is called \<open>w\<close>.
\<close>

record Box =
  weight :: double
  absorbed_weights :: "double list"

text \<open>The constructor \<^verbatim>\<open>Box(double initial_weight)\<close>: the deque starts empty.\<close>

definition Box :: "double \<Rightarrow> Box" where
  "Box initial_weight = \<lparr>weight = initial_weight, absorbed_weights = []\<rparr>"

definition makeGreenBox :: "double \<Rightarrow> Box" where
  "makeGreenBox initial_weight = Box initial_weight"

definition makeBlueBox :: "double \<Rightarrow> Box" where
  "makeBlueBox initial_weight = Box initial_weight"

text \<open>\<^verbatim>\<open>Box::operator<\<close> compares the weights only.\<close>

definition box_less :: "Box \<Rightarrow> Box \<Rightarrow> bool" where
  "box_less lhs rhs \<longleftrightarrow> weight lhs < weight rhs"

definition getWeight :: "Box \<Rightarrow> double" where
  "getWeight b = weight b"

text \<open>
  \<^verbatim>\<open>std::accumulate(first, last, 0.0)\<close> adds the elements to the initial value
  from left to right.
\<close>

definition accumulate :: "double list \<Rightarrow> double \<Rightarrow> double" where
  "accumulate xs init = foldl (+) init xs"

text \<open>
  \<^verbatim>\<open>Box::calculateScoreForGreenBox\<close>: push the weight at the back, pop the front
  once more than three are held, score the square of the mean of what is held,
  add the weight to the box. The result is the score and the box afterwards.
\<close>

definition calculateScoreForGreenBox :: "double \<Rightarrow> Box \<Rightarrow> double \<times> Box" where
  "calculateScoreForGreenBox w b =
     (let pushed = absorbed_weights b @ [w];
          held = (if length pushed > 3 then tl pushed else pushed);
          mean = accumulate held 0 / of_nat (length held);
          s = mean ^ 2
      in (s, \<lparr>weight = weight b + w, absorbed_weights = held\<rparr>))"

text \<open>
  \<^verbatim>\<open>Box::calculateScoreForBlueBox\<close>: a weight below the front goes to the front,
  otherwise a weight above the back goes to the back, otherwise the deque is
  left alone; into an empty deque the weight is pushed. The deque is not empty
  when \<^verbatim>\<open>front()\<close> and \<^verbatim>\<open>back()\<close> are read.
\<close>

definition calculateScoreForBlueBox :: "double \<Rightarrow> Box \<Rightarrow> double \<times> Box" where
  "calculateScoreForBlueBox w b =
     (let old = absorbed_weights b;
          held = (if old \<noteq> [] then
                    (if hd old > w then w # old
                     else if last old < w then old @ [w]
                     else old)
                  else old @ [w]);
          smallest = hd held;
          largest = last held;
          sum = smallest + largest;
          s = (sum * (sum + 1)) / 2 + largest
      in (s, \<lparr>weight = weight b + w, absorbed_weights = held\<rparr>))"

subsection \<open>Player\<close>

record Player =
  score :: double

text \<open>A player starts with \<^verbatim>\<open>score_ = 0.0\<close>.\<close>

definition Player :: Player where
  "Player = \<lparr>score = 0\<rparr>"

definition getScore :: "Player \<Rightarrow> double" where
  "getScore p = score p"

text \<open>
  \<^verbatim>\<open>std::min_element(first, last, comp)\<close> on the vector of boxes, as an index:
  the end index on an empty range; otherwise the scan starts with the first
  element as the smallest and moves to a later element only when that one
  compares less than the smallest so far.
\<close>

function min_element_scan :: "Box list \<Rightarrow> nat \<Rightarrow> nat \<Rightarrow> nat" where
  "min_element_scan boxes smallest first =
     (if first < length boxes then
        min_element_scan boxes
          (if box_less (boxes ! first) (boxes ! smallest) then first else smallest)
          (Suc first)
      else smallest)"
  by pat_completeness auto
termination
  by (relation "measure (\<lambda>(boxes, smallest, first). length boxes - first)") auto

definition min_element :: "Box list \<Rightarrow> nat" where
  "min_element boxes =
     (if boxes = [] then length boxes else min_element_scan boxes 0 1)"

text \<open>
  \<^verbatim>\<open>Player::takeTurn\<close>. The index of the lightest box decides the scoring function:
  index 0 or 1 is scored as a green box, any other as a blue box. On an empty
  vector the source dereferences the end iterator; the model returns \<open>None\<close>
  there. The result is the player and the boxes afterwards.
\<close>

definition takeTurn :: "uint32 \<Rightarrow> Box list \<Rightarrow> Player \<Rightarrow> (Player \<times> Box list) option" where
  "takeTurn input_weight boxes p =
     (let index = min_element boxes in
      if index < length boxes then
        (let (s, b) =
               (if index = 0 \<or> index = 1
                then calculateScoreForGreenBox (double_of_uint32 input_weight) (boxes ! index)
                else calculateScoreForBlueBox (double_of_uint32 input_weight) (boxes ! index))
         in Some (p\<lparr>score := score p + s\<rparr>, boxes[index := b]))
      else None)"

subsection \<open>The game\<close>

text \<open>The locals of \<^verbatim>\<open>play\<close>: the boxes and the two players.\<close>

record game =
  boxes :: "Box list"
  player_A :: Player
  player_B :: Player

definition initial_game :: game where
  "initial_game =
     \<lparr>boxes = [makeGreenBox 0, makeGreenBox (1 / 10), makeBlueBox (2 / 10), makeBlueBox (3 / 10)],
      player_A = Player, player_B = Player\<rparr>"

text \<open>
  One iteration of the loop of \<^verbatim>\<open>play\<close> at index \<open>i\<close>: player A moves at the even
  indices, player B at the odd ones.
\<close>

definition play_step :: "nat \<Rightarrow> uint32 \<Rightarrow> game \<Rightarrow> game option" where
  "play_step i x g =
     (if i mod 2 = 0 then
        (case takeTurn x (boxes g) (player_A g) of
           None \<Rightarrow> None
         | Some (p, bs) \<Rightarrow> Some (g\<lparr>boxes := bs, player_A := p\<rparr>))
      else
        (case takeTurn x (boxes g) (player_B g) of
           None \<Rightarrow> None
         | Some (p, bs) \<Rightarrow> Some (g\<lparr>boxes := bs, player_B := p\<rparr>)))"

text \<open>
  The loop \<^verbatim>\<open>for (int i = 0; i < input_weights.size(); i++)\<close>, from index \<open>i\<close> on.
  The counter is a natural number here: the model covers the vectors of fewer
  than \<open>2^31\<close> elements, on which the \<^verbatim>\<open>int\<close> counter does not overflow.
\<close>

function play_loop :: "uint32 list \<Rightarrow> nat \<Rightarrow> game \<Rightarrow> game option" where
  "play_loop input_weights i g =
     (if i < length input_weights then
        (case play_step i (input_weights ! i) g of
           None \<Rightarrow> None
         | Some g' \<Rightarrow> play_loop input_weights (Suc i) g')
      else Some g)"
  by pat_completeness auto
termination
  by (relation "measure (\<lambda>(input_weights, i, g). length input_weights - i)") auto

declare play_loop.simps [simp del]

text \<open>
  \<^verbatim>\<open>play\<close> returns the pair of the two scores (the line it prints is left out).
\<close>

definition play :: "uint32 list \<Rightarrow> (double \<times> double) option" where
  "play input_weights =
     (case play_loop input_weights 0 initial_game of
        None \<Rightarrow> None
      | Some g \<Rightarrow> Some (getScore (player_A g), getScore (player_B g)))"

subsection \<open>Sequences of absorptions, and the notions the properties use\<close>

text \<open>
  \<open>absorb_all f ws b\<close> lets the box \<open>b\<close> absorb the weights \<open>ws\<close> one after the other
  with the scoring function \<open>f\<close>; it returns the scores in the order they were
  returned, and the box at the end.
\<close>

fun absorb_all :: "(double \<Rightarrow> Box \<Rightarrow> double \<times> Box) \<Rightarrow> double list \<Rightarrow> Box \<Rightarrow> double list \<times> Box" where
  "absorb_all f [] b = ([], b)"
| "absorb_all f (w # ws) b =
     (let (s, b') = f w b; (ss, b'') = absorb_all f ws b' in (s # ss, b''))"



text \<open>Cantor's pairing function, in the words of the specification.\<close>

definition pairing :: "double \<Rightarrow> double \<Rightarrow> double" where
  "pairing lo hi = (lo + hi) * (lo + hi + 1) / 2 + hi"

text \<open>
  What a blue box that started empty holds after absorbing \<open>ws\<close>: nothing when
  \<open>ws\<close> is empty, otherwise a deque from the least to the greatest weight.
\<close>

definition blue_inv :: "double list \<Rightarrow> Box \<Rightarrow> bool" where
  "blue_inv ws b \<longleftrightarrow>
     (if ws = [] then absorbed_weights b = []
      else absorbed_weights b \<noteq> [] \<and> hd (absorbed_weights b) = Min (set ws) \<and>
           last (absorbed_weights b) = Max (set ws))"

text \<open>
  \<open>first_min bs n i\<close>: among the first \<open>n\<close> boxes, the one at index \<open>i\<close> is the
  earliest of the lightest.
\<close>

definition first_min :: "Box list \<Rightarrow> nat \<Rightarrow> nat \<Rightarrow> bool" where
  "first_min bs n i \<longleftrightarrow>
     i < n \<and> (\<forall>j<n. weight (bs ! i) \<le> weight (bs ! j)) \<and>
     (\<forall>j<i. weight (bs ! i) < weight (bs ! j))"

text \<open>The scoring function that \<open>takeTurn\<close> applies to the box at a given index.\<close>

definition scoring :: "nat \<Rightarrow> double \<Rightarrow> Box \<Rightarrow> double \<times> Box" where
  "scoring index =
     (if index = 0 \<or> index = 1 then calculateScoreForGreenBox else calculateScoreForBlueBox)"

text \<open>
  What holds of the boxes throughout a game: there is a box, and no box holds a
  negative weight in its deque.
\<close>

definition nonneg_box :: "Box \<Rightarrow> bool" where
  "nonneg_box b \<longleftrightarrow> list_all (\<lambda>x. 0 \<le> x) (absorbed_weights b)"

definition game_inv :: "game \<Rightarrow> bool" where
  "game_inv g \<longleftrightarrow> boxes g \<noteq> [] \<and> list_all nonneg_box (boxes g)"

section \<open>Sequences of absorptions\<close>


lemma absorb_all_length: "length (fst (absorb_all f ws b)) = length ws"
  by (induction ws arbitrary: b) (simp_all add: split_beta Let_def)

lemma absorb_all_snoc:
  "absorb_all f (ws @ [w]) b =
     (fst (absorb_all f ws b) @ [fst (f w (snd (absorb_all f ws b)))],
      snd (f w (snd (absorb_all f ws b))))"
  by (induction ws arbitrary: b) (simp_all add: split_beta Let_def)






section \<open>Green boxes\<close>







section \<open>Blue boxes\<close>

lemma blue_held:
  "absorbed_weights (snd (calculateScoreForBlueBox w b)) =
     (let old = absorbed_weights b in
      if old \<noteq> [] then
        (if hd old > w then w # old else if last old < w then old @ [w] else old)
      else old @ [w])"
  by (simp add: calculateScoreForBlueBox_def Let_def)

text \<open>The score is the pairing of the front and the back of the deque after the update.\<close>

lemma blue_score_held:
  "fst (calculateScoreForBlueBox w b) =
     pairing (hd (absorbed_weights (snd (calculateScoreForBlueBox w b))))
             (last (absorbed_weights (snd (calculateScoreForBlueBox w b))))"
  by (simp add: calculateScoreForBlueBox_def Let_def pairing_def)

lemma blue_inv_step:
  assumes "blue_inv ws b"
  shows "blue_inv (ws @ [w]) (snd (calculateScoreForBlueBox w b))"
proof (cases "ws = []")
  case True
  with assms show ?thesis by (simp add: blue_inv_def blue_held)
next
  case False
  let ?old = "absorbed_weights b"
  from False assms have old: "?old \<noteq> []" "hd ?old = Min (set ws)" "last ?old = Max (set ws)"
    by (simp_all add: blue_inv_def)
  have le: "Min (set ws) \<le> Max (set ws)" using False by simp
  have mn: "Min (set (ws @ [w])) = min w (Min (set ws))" using False by simp
  have mx: "Max (set (ws @ [w])) = max w (Max (set ws))" using False by simp
  show ?thesis
    unfolding blue_inv_def blue_held Let_def mn mx using old le
    by (auto simp: min_def max_def)
qed

lemma blue_inv_all:
  "absorbed_weights b = [] \<Longrightarrow> blue_inv ws (snd (absorb_all calculateScoreForBlueBox ws b))"
proof (induction ws rule: rev_induct)
  case Nil
  then show ?case by (simp add: blue_inv_def)
next
  case (snoc w ws)
  then show ?case by (simp add: absorb_all_snoc blue_inv_step)
qed




text \<open>
  C9. After every absorption into a blue box made by \<open>makeBlueBox\<close> (here: after
  the weights \<open>ws\<close> and then \<open>w\<close>), the deque of the box is not empty, its front is
  the least and its back the greatest of all the weights absorbed so far.
\<close>

theorem blue_buffer_min_max:
  "absorbed_weights (snd (absorb_all calculateScoreForBlueBox (ws @ [w]) (makeBlueBox w0))) \<noteq> [] \<and>
   hd (absorbed_weights (snd (absorb_all calculateScoreForBlueBox (ws @ [w]) (makeBlueBox w0)))) =
     Min (set (ws @ [w])) \<and>
   last (absorbed_weights (snd (absorb_all calculateScoreForBlueBox (ws @ [w]) (makeBlueBox w0)))) =
     Max (set (ws @ [w]))"
proof -
  have "absorbed_weights (makeBlueBox w0) = []"
    by (simp add: makeBlueBox_def Box_def)
  then have "blue_inv (ws @ [w]) (snd (absorb_all calculateScoreForBlueBox (ws @ [w]) (makeBlueBox w0)))"
    by (rule blue_inv_all)
  then show ?thesis
    unfolding blue_inv_def by simp
qed

theorem blue_buffer_min_max_witness:
  "absorbed_weights (snd (absorb_all calculateScoreForBlueBox ([4, 2, 3] @ [9]) (makeBlueBox 0))) = [2, 4, 9] \<and>
   hd (absorbed_weights (snd (absorb_all calculateScoreForBlueBox ([4, 2, 3] @ [9]) (makeBlueBox 0)))) = 2 \<and>
   last (absorbed_weights (snd (absorb_all calculateScoreForBlueBox ([4, 2, 3] @ [9]) (makeBlueBox 0)))) = 9"
proof -
  have "absorbed_weights (snd (absorb_all calculateScoreForBlueBox ([4, 2, 3] @ [9]) (makeBlueBox 0))) = [2, 4, 9]"
    by code_simp
  with blue_buffer_min_max [of "[4, 2, 3]" 9 0] show ?thesis
    by (simp del: absorb_all.simps)
qed

section \<open>Selecting the lightest box\<close>

lemma first_min_extend:
  assumes "first_min bs n s" and "n < length bs"
  shows "first_min bs (Suc n) (if box_less (bs ! n) (bs ! s) then n else s)"
  using assms unfolding first_min_def box_less_def
  by (auto simp: less_Suc_eq intro: less_le_trans less_imp_le)

lemma min_element_scan_first_min:
  assumes "first_min bs n s" and "n \<le> length bs"
  shows "first_min bs (length bs) (min_element_scan bs s n)"
  using assms
proof (induction bs s n rule: min_element_scan.induct)
  case (1 boxes smallest first)
  show ?case
  proof (cases "first < length boxes")
    case True
    let ?s = "if box_less (boxes ! first) (boxes ! smallest) then first else smallest"
    have "first_min boxes (Suc first) ?s"
      using "1.prems"(1) True by (rule first_min_extend)
    moreover have "Suc first \<le> length boxes" using True by simp
    ultimately have "first_min boxes (length boxes) (min_element_scan boxes ?s (Suc first))"
      using "1.IH" [OF True] by blast
    then show ?thesis
      using True by (subst min_element_scan.simps) simp
  next
    case False
    with "1.prems" have "first = length boxes" by simp
    with "1.prems" show ?thesis
      by (subst min_element_scan.simps) simp
  qed
qed

lemma min_element_first_min:
  assumes "bs \<noteq> []"
  shows "first_min bs (length bs) (min_element bs)"
proof -
  have "first_min bs 1 0" by (simp add: first_min_def)
  moreover have "1 \<le> length bs" using assms by (cases bs) simp_all
  ultimately show ?thesis
    using assms min_element_scan_first_min [of bs 1 0] by (simp add: min_element_def)
qed

lemma green_weight: "weight (snd (calculateScoreForGreenBox w b)) = weight b + w"
  by (simp add: calculateScoreForGreenBox_def Let_def)

lemma blue_weight: "weight (snd (calculateScoreForBlueBox w b)) = weight b + w"
  by (simp add: calculateScoreForBlueBox_def Let_def)

text \<open>On a non-empty vector of boxes a turn always succeeds.\<close>

lemma takeTurn_Some:
  assumes "bs \<noteq> []"
  shows "takeTurn x bs p =
         Some (p\<lparr>score := score p +
                   fst (scoring (min_element bs) (double_of_uint32 x) (bs ! min_element bs))\<rparr>,
               bs[min_element bs :=
                   snd (scoring (min_element bs) (double_of_uint32 x) (bs ! min_element bs))])"
proof -
  have "min_element bs < length bs"
    using min_element_first_min [OF assms] by (simp add: first_min_def)
  then show ?thesis
    by (simp add: takeTurn_def Let_def scoring_def split_beta)
qed

text \<open>
  C5. On a turn over a non-empty vector of boxes the player selects the index
  \<open>min_element bs\<close>: no box is lighter than the box there, and every box at an
  earlier position is strictly heavier (so among boxes of the same smallest
  weight the earliest is taken). The turn succeeds, and it is the box at that
  index, and no other, that absorbs the input.
\<close>

theorem takeTurn_selects_first_lightest:
  assumes "bs \<noteq> []"
  shows "min_element bs < length bs \<and>
         (\<forall>j<length bs. getWeight (bs ! min_element bs) \<le> getWeight (bs ! j)) \<and>
         (\<forall>j<min_element bs. getWeight (bs ! min_element bs) < getWeight (bs ! j)) \<and>
         (\<exists>p' b'. takeTurn x bs p = Some (p', bs[min_element bs := b']) \<and>
            getWeight b' = getWeight (bs ! min_element bs) + double_of_uint32 x)"
proof -
  let ?i = "min_element bs"
  let ?r = "scoring ?i (double_of_uint32 x) (bs ! ?i)"
  have "weight (snd ?r) = weight (bs ! ?i) + double_of_uint32 x"
    by (simp add: scoring_def green_weight blue_weight)
  with takeTurn_Some [OF assms, of x p] min_element_first_min [OF assms]
  show ?thesis
    unfolding first_min_def getWeight_def by blast
qed

theorem takeTurn_selects_first_lightest_witness:
  "[Box 1, Box (1 / 10), Box (1 / 10), Box 3] \<noteq> [] \<and>
   min_element [Box 1, Box (1 / 10), Box (1 / 10), Box 3] = 1 \<and>
   min_element [Box 1, Box (1 / 10), Box (1 / 10), Box 3] <
     length [Box 1, Box (1 / 10), Box (1 / 10), Box 3] \<and>
   getWeight ([Box 1, Box (1 / 10), Box (1 / 10), Box 3] !
       min_element [Box 1, Box (1 / 10), Box (1 / 10), Box 3])
     \<le> getWeight ([Box 1, Box (1 / 10), Box (1 / 10), Box 3] ! 2) \<and>
   getWeight ([Box 1, Box (1 / 10), Box (1 / 10), Box 3] !
       min_element [Box 1, Box (1 / 10), Box (1 / 10), Box 3])
     < getWeight ([Box 1, Box (1 / 10), Box (1 / 10), Box 3] ! 0)"
proof -
  let ?bs = "[Box 1, Box (1 / 10), Box (1 / 10), Box 3]"
  have ne: "?bs \<noteq> []" by simp
  have m: "min_element ?bs = 1" by code_simp
  note sel = takeTurn_selects_first_lightest [OF ne, of 5 Player]
  from sel have "min_element ?bs < length ?bs"
    by blast
  moreover from sel have "\<forall>j<length ?bs. getWeight (?bs ! min_element ?bs) \<le> getWeight (?bs ! j)"
    by blast
  from this [THEN spec, of 2] have "getWeight (?bs ! min_element ?bs) \<le> getWeight (?bs ! 2)"
    by simp
  moreover from sel have "\<forall>j<min_element ?bs. getWeight (?bs ! min_element ?bs) < getWeight (?bs ! j)"
    by blast
  from this [THEN spec, of 0] have "getWeight (?bs ! min_element ?bs) < getWeight (?bs ! 0)"
    unfolding m by simp
  ultimately show ?thesis
    using ne m by blast
qed

section \<open>Scores never decrease\<close>

lemma double_of_uint32_nonneg: "0 \<le> double_of_uint32 x"
  unfolding double_of_uint32_def by (rule of_nat_0_le_iff)

lemma play_loop_turn:
  "i < length ws \<Longrightarrow>
   play_loop ws i g =
     (case play_step i (ws ! i) g of None \<Rightarrow> None | Some g' \<Rightarrow> play_loop ws (Suc i) g')"
  by (subst play_loop.simps) simp

lemma play_loop_end: "\<not> i < length ws \<Longrightarrow> play_loop ws i g = Some g"
  by (subst play_loop.simps) simp

lemma green_score_nonneg: "0 \<le> fst (calculateScoreForGreenBox w b)"
  by (simp add: calculateScoreForGreenBox_def Let_def)

lemma green_nonneg_step:
  assumes "nonneg_box b" and "0 \<le> w"
  shows "nonneg_box (snd (calculateScoreForGreenBox w b))"
proof -
  have "set (tl (absorbed_weights b @ [w])) \<subseteq> set (absorbed_weights b @ [w])"
    by (cases "absorbed_weights b") auto
  with assms show ?thesis
    by (auto simp: nonneg_box_def calculateScoreForGreenBox_def Let_def list_all_iff)
qed

lemma blue_nonneg_step:
  assumes "nonneg_box b" and "0 \<le> w"
  shows "nonneg_box (snd (calculateScoreForBlueBox w b))"
  using assms by (auto simp: nonneg_box_def blue_held Let_def list_all_iff)

lemma blue_held_nonempty: "absorbed_weights (snd (calculateScoreForBlueBox w b)) \<noteq> []"
  by (simp add: blue_held Let_def)

lemma pairing_nonneg: "0 \<le> lo \<Longrightarrow> 0 \<le> hi \<Longrightarrow> 0 \<le> pairing lo hi"
  by (simp add: pairing_def)

lemma blue_score_nonneg:
  assumes "nonneg_box b" and "0 \<le> w"
  shows "0 \<le> fst (calculateScoreForBlueBox w b)"
proof -
  let ?h = "absorbed_weights (snd (calculateScoreForBlueBox w b))"
  have "list_all (\<lambda>x. 0 \<le> x) ?h"
    using blue_nonneg_step [OF assms] by (simp add: nonneg_box_def)
  moreover have "hd ?h \<in> set ?h" and "last ?h \<in> set ?h"
    using blue_held_nonempty [of w b] by simp_all
  ultimately have "0 \<le> hd ?h" and "0 \<le> last ?h"
    by (simp_all add: list_all_iff)
  then show ?thesis
    unfolding blue_score_held by (rule pairing_nonneg)
qed

lemma scoring_nonneg:
  assumes "nonneg_box b"
  shows "0 \<le> fst (scoring i (double_of_uint32 x) b)"
    and "nonneg_box (snd (scoring i (double_of_uint32 x) b))"
  using assms double_of_uint32_nonneg [of x]
  by (simp_all add: scoring_def green_score_nonneg blue_score_nonneg green_nonneg_step blue_nonneg_step)

lemma takeTurn_inv:
  assumes "bs \<noteq> []" and "list_all nonneg_box bs"
  shows "\<exists>p' bs'. takeTurn x bs p = Some (p', bs') \<and> score p \<le> score p' \<and>
           bs' \<noteq> [] \<and> list_all nonneg_box bs'"
proof -
  let ?i = "min_element bs"
  let ?r = "scoring ?i (double_of_uint32 x) (bs ! ?i)"
  have i: "?i < length bs"
    using min_element_first_min [OF assms(1)] by (simp add: first_min_def)
  with assms(2) have nb: "nonneg_box (bs ! ?i)"
    by (simp add: list_all_length)
  have "list_all nonneg_box (bs[?i := snd ?r])"
    using assms(2) scoring_nonneg(2) [OF nb, of ?i x]
    by (auto simp: list_all_iff dest: subsetD [OF set_update_subset_insert])
  moreover have "bs[?i := snd ?r] \<noteq> []" using assms(1) by simp
  moreover have "score p \<le> score (p\<lparr>score := score p + fst ?r\<rparr>)"
    using scoring_nonneg(1) [OF nb, of ?i x] by simp
  ultimately show ?thesis
    unfolding takeTurn_Some [OF assms(1)] by blast
qed

lemma play_step_inv:
  assumes "game_inv g"
  shows "\<exists>g'. play_step i x g = Some g' \<and> game_inv g' \<and>
           score (player_A g) \<le> score (player_A g') \<and>
           score (player_B g) \<le> score (player_B g')"
proof -
  from assms have b: "boxes g \<noteq> []" "list_all nonneg_box (boxes g)"
    by (simp_all add: game_inv_def)
  show ?thesis
  proof (cases "i mod 2 = 0")
    case True
    from takeTurn_inv [OF b, of x "player_A g"] True show ?thesis
      by (auto simp: play_step_def game_inv_def)
  next
    case False
    from takeTurn_inv [OF b, of x "player_B g"] False show ?thesis
      by (auto simp: play_step_def game_inv_def)
  qed
qed

lemma play_loop_inv:
  assumes "game_inv g"
  shows "\<exists>g'. play_loop ws i g = Some g' \<and> game_inv g' \<and>
           score (player_A g) \<le> score (player_A g') \<and>
           score (player_B g) \<le> score (player_B g')"
  using assms
proof (induction ws i g rule: play_loop.induct)
  case (1 input_weights i g)
  show ?case
  proof (cases "i < length input_weights")
    case True
    from play_step_inv [OF "1.prems", of i "input_weights ! i"]
    obtain g1 where g1: "play_step i (input_weights ! i) g = Some g1" "game_inv g1"
      "score (player_A g) \<le> score (player_A g1)" "score (player_B g) \<le> score (player_B g1)"
      by blast
    from "1.IH" [OF True g1(1) g1(2)]
    obtain g2 where g2: "play_loop input_weights (Suc i) g1 = Some g2" "game_inv g2"
      "score (player_A g1) \<le> score (player_A g2)" "score (player_B g1) \<le> score (player_B g2)"
      by blast
    have "play_loop input_weights i g = Some g2"
      using g1(1) g2(1) by (simp add: play_loop_turn [OF True])
    with g1 g2 show ?thesis by auto
  next
    case False
    then have "play_loop input_weights i g = Some g"
      by (rule play_loop_end)
    with "1.prems" show ?thesis by simp
  qed
qed

text \<open>One more input is one more turn, taken on the game the shorter input ends in.\<close>

lemma play_loop_snoc:
  assumes "i \<le> length ws"
  shows "play_loop (ws @ [x]) i g =
         (case play_loop ws i g of None \<Rightarrow> None | Some g' \<Rightarrow> play_step (length ws) x g')"
  using assms
proof (induction ws i g rule: play_loop.induct)
  case (1 input_weights i g)
  show ?case
  proof (cases "i < length input_weights")
    case True
    then have lt: "i < length (input_weights @ [x])" by simp
    have nth: "(input_weights @ [x]) ! i = input_weights ! i"
      using True by (simp add: nth_append)
    show ?thesis
    proof (cases "play_step i (input_weights ! i) g")
      case None
      then show ?thesis
        by (simp add: play_loop_turn [OF lt] play_loop_turn [OF True] nth)
    next
      case (Some g1)
      from "1.IH" [OF True Some] True
      have "play_loop (input_weights @ [x]) (Suc i) g1 =
        (case play_loop input_weights (Suc i) g1 of None \<Rightarrow> None
         | Some g' \<Rightarrow> play_step (length input_weights) x g')"
        by simp
      with Some show ?thesis
        by (simp add: play_loop_turn [OF lt] play_loop_turn [OF True] nth)
    qed
  next
    case False
    with "1.prems" have i: "i = length input_weights" by simp
    have lt: "i < length (input_weights @ [x])" using i by simp
    have "\<not> Suc i < length (input_weights @ [x])" using i by simp
    then have fin: "play_loop (input_weights @ [x]) (Suc i) g' = Some g'" for g'
      by (rule play_loop_end)
    have "play_loop (input_weights @ [x]) i g = play_step i x g"
      unfolding play_loop_turn [OF lt] using fin i by (simp split: option.splits)
    then show ?thesis
      unfolding play_loop_end [OF False] using i by simp
  qed
qed

lemma initial_game_inv: "game_inv initial_game"
  by (simp add: game_inv_def initial_game_def nonneg_box_def makeGreenBox_def makeBlueBox_def Box_def)

text \<open>
  C8. A player's score starts at 0. For every input sequence \<open>ws\<close> (of unsigned
  32-bit integers, hence non-negative) and every further input \<open>x\<close>, the game on
  \<open>ws\<close> and the game on \<open>ws\<close> followed by \<open>x\<close> both return scores; the scores after
  the additional turn are not below the scores before it, for both players, and
  the scores are not negative.
\<close>

theorem scores_monotone:
  "getScore Player = 0 \<and>
   (\<exists>a b a' b'. play ws = Some (a, b) \<and> play (ws @ [x]) = Some (a', b') \<and>
      0 \<le> a \<and> a \<le> a' \<and> 0 \<le> b \<and> b \<le> b')"
proof -
  from play_loop_inv [OF initial_game_inv, of ws 0]
  obtain g where g: "play_loop ws 0 initial_game = Some g" "game_inv g"
    "score (player_A initial_game) \<le> score (player_A g)"
    "score (player_B initial_game) \<le> score (player_B g)"
    by blast
  from play_step_inv [OF g(2), of "length ws" x]
  obtain g' where g': "play_step (length ws) x g = Some g'"
    "score (player_A g) \<le> score (player_A g')" "score (player_B g) \<le> score (player_B g')"
    by blast
  have "play_loop (ws @ [x]) 0 initial_game = Some g'"
    using play_loop_snoc [of 0 ws x initial_game] g(1) g'(1) by simp
  with g g' show ?thesis
    by (simp add: play_def getScore_def initial_game_def Player_def)
qed

theorem scores_monotone_witness:
  "play [1, 1, 2] = Some (13, 1) \<and> play ([1, 1, 2] @ [3]) = Some (13, 25)"
proof -
  have "play [1, 1, 2] = Some (13, 1)" by code_simp
  moreover have "play ([1, 1, 2] @ [3]) = Some (13, 25)" by code_simp
  ultimately show ?thesis
    using scores_monotone [of "[1, 1, 2]" 3] by simp
qed

section \<open>The weight of a box\<close>





section \<open>The two kinds of boxes\<close>

lemma green_blue_differ: "calculateScoreForGreenBox \<noteq> calculateScoreForBlueBox"
proof
  assume "calculateScoreForGreenBox = calculateScoreForBlueBox"
  then have "fst (calculateScoreForGreenBox 2 (Box 0)) = fst (calculateScoreForBlueBox 2 (Box 0))"
    by simp
  then show False
    by (simp add: calculateScoreForGreenBox_def calculateScoreForBlueBox_def Box_def
        accumulate_def Let_def)
qed

text \<open>
  C10. For every initial weight, \<open>makeGreenBox\<close> and \<open>makeBlueBox\<close> construct the same
  box: the given weight, an empty deque, and nothing that tells the kind. Which
  scoring function a turn applies is decided by the index of the selected box
  alone: the green one if and only if the index is 0 or 1, the blue one
  otherwise.
\<close>

theorem box_kind_by_index:
  "makeGreenBox w = makeBlueBox w \<and>
   makeGreenBox w = \<lparr>weight = w, absorbed_weights = []\<rparr> \<and>
   makeBlueBox w = \<lparr>weight = w, absorbed_weights = []\<rparr> \<and>
   (scoring i = calculateScoreForGreenBox \<longleftrightarrow> i = 0 \<or> i = 1) \<and>
   (scoring i = calculateScoreForBlueBox \<longleftrightarrow> \<not> (i = 0 \<or> i = 1)) \<and>
   (bs \<noteq> [] \<longrightarrow>
      takeTurn x bs p =
        Some (p\<lparr>score := score p +
                  fst (scoring (min_element bs) (double_of_uint32 x) (bs ! min_element bs))\<rparr>,
              bs[min_element bs :=
                  snd (scoring (min_element bs) (double_of_uint32 x) (bs ! min_element bs))]))"
proof -
  have "scoring i = calculateScoreForGreenBox \<longleftrightarrow> i = 0 \<or> i = 1"
    using green_blue_differ by (auto simp: scoring_def)
  moreover have "scoring i = calculateScoreForBlueBox \<longleftrightarrow> \<not> (i = 0 \<or> i = 1)"
    using green_blue_differ by (auto simp: scoring_def)
  ultimately show ?thesis
    using takeTurn_Some [of bs x p] by (simp add: makeGreenBox_def makeBlueBox_def Box_def)
qed

text \<open>
  At concrete boxes: a box made by \<open>makeBlueBox\<close> at index 0 is scored as a green
  box (the square of the mean, 4), and a box made by \<open>makeGreenBox\<close> at index 2 is
  scored as a blue box (the pairing of 2 with 2, 12).
\<close>

theorem box_kind_by_index_witness:
  "[makeBlueBox 0, makeGreenBox 5] \<noteq> [] \<and>
   map_option (score \<circ> fst) (takeTurn 2 [makeBlueBox 0, makeGreenBox 5] Player) = Some 4 \<and>
   map_option (score \<circ> fst)
     (takeTurn 2 [makeGreenBox 9, makeGreenBox 9, makeGreenBox 0] Player) = Some 12 \<and>
   makeGreenBox (1 / 10) = makeBlueBox (1 / 10)"
proof -
  have "map_option (score \<circ> fst) (takeTurn 2 [makeBlueBox 0, makeGreenBox 5] Player) = Some 4"
    by code_simp
  moreover have "map_option (score \<circ> fst)
     (takeTurn 2 [makeGreenBox 9, makeGreenBox 9, makeGreenBox 0] Player) = Some 12"
    by code_simp
  ultimately show ?thesis
    using box_kind_by_index [of "1 / 10" 0 "[makeBlueBox 0, makeGreenBox 5]" 2 Player]
    by simp
qed

section \<open>The two recorded games\<close>

text \<open>
  C4. On the inputs 1, 1, 2, 3 the game ends with the scores 13.0 for player A and
  25.0 for player B.
\<close>

theorem play_fibonacci4: "play [1, 1, 2, 3] = Some (13.0, 25.0)"
  by code_simp

text \<open>
  C3. On the inputs 1, 1, 2, 3, 5, 8, 13, 21 the game ends with the scores 155.0 for
  player A and 366.25 for player B.
\<close>

theorem play_fibonacci8: "play [1, 1, 2, 3, 5, 8, 13, 21] = Some (155.0, 366.25)"
  by code_simp

section \<open>The empty game\<close>

text \<open>
  C7. On the empty input sequence the loop of \<open>play\<close> takes no turn: the game state
  is the initial one, with both scores at their initial value, and \<open>play\<close> returns
  the pair \<open>(0, 0)\<close> as a regular result.
\<close>

theorem play_empty:
  "play_loop [] 0 initial_game = Some initial_game \<and>
   score (player_A initial_game) = 0 \<and> score (player_B initial_game) = 0 \<and>
   play [] = Some (0, 0)"
  by (simp add: play_def play_loop_end initial_game_def Player_def getScore_def)

end
